theory Spec2Isabelle
  imports Complex_Main
begin

section \<open>The world outside the program\<close>

text \<open>
  \<^verbatim>\<open>particles_vedo.py\<close> drives two libraries it does not contain: the Fortran
  extension \<^verbatim>\<open>particle_driver\<close> (the engine) and \<^verbatim>\<open>vedo\<close> (the scene). Both are
  modelled by what the program can observe of them.

  \<^item> Every call into either library is appended to one log, oldest first, so that the
    order of calls across both libraries is kept.
  \<^item> What the engine writes into a buffer handed to \<^verbatim>\<open>get_sizes\<close> or
    \<^verbatim>\<open>get_positions\<close> is an arbitrary function of the calls made so far: the
    engine's state is opaque, and the log is all that can determine it.
  \<^item> A vedo \<^verbatim>\<open>Sphere\<close> is an object shared by the \<^verbatim>\<open>Particle\<close> that made it and
    the plotter it was added to, so spheres live in a store and are named by their
    index in it.
  \<^item> The numpy array \<^verbatim>\<open>positions_3d\<close> is shared by the \<^verbatim>\<open>ParticleSimulation\<close>,
    which writes it every frame, and the \<^verbatim>\<open>Particles\<close> object, which reads it, so
    coordinate arrays live in a store too and are named by address. A row obtained by
    iterating or indexing such an array is a view: an address and a row number.

  Coordinates are reals: the program only copies and compares them. Output written with
  \<^verbatim>\<open>print\<close> is left out. There is one plotter, and it is a \<^verbatim>\<open>Plotter\<close> object as in
  the entry point (the default \<^verbatim>\<open>plt=None\<close> is not modelled). Calls into the engine and
  into vedo return normally; the program catches no exception, so a failure there would
  simply end it.
\<close>

type_synonym vec2 = "real \<times> real"
type_synonym vec3 = "real \<times> real \<times> real"
type_synonym addr = nat
type_synonym view = "addr \<times> nat"

datatype py_error = ValueError | IndexError | AttributeError

datatype call =
    Deallocate_system
  | Init_system int real real real
  | Get_sizes
  | Get_positions
  | Collision_check
  | Boundary_check
  | Driver_update
  | Sphere_new nat
  | Add_trail nat
  | Plt_add nat
  | Sphere_pos nat vec3
  | Plt_show bool

record Sphere =
  sp_pos :: vec3
  sp_r :: real
  sp_c :: string
  sp_res :: int
  sp_trail :: bool

record world =
  arrays :: "addr \<Rightarrow> vec3 list"
  next_addr :: addr
  spheres :: "Sphere list"
  calls :: "call list"

record env =
  eng_sizes :: "call list \<Rightarrow> nat \<Rightarrow> real"
  eng_positions :: "call list \<Rightarrow> nat \<Rightarrow> vec2"
  escaped :: "nat \<Rightarrow> bool"

definition log_call :: "call \<Rightarrow> world \<Rightarrow> world" where
  "log_call c w = w\<lparr>calls := calls w @ [c]\<rparr>"

definition view_val :: "world \<Rightarrow> view \<Rightarrow> vec3" where
  "view_val w v = arrays w (fst v) ! snd v"

section \<open>Particle\<close>

record Particle =
  p_pos :: view
  p_r :: real
  p_color :: string
  p_res :: int
  use_trail :: bool
  vsphere :: nat

text \<open>
  \<^verbatim>\<open>Particle.__init__(self, plt, pos, radius=0.1, color='gray', res=8, use_trail=False)\<close>.
  The attribute \<^verbatim>\<open>__color\<close> is assigned the literal \<^verbatim>\<open>'gray'\<close>, not the argument, and
  the sphere is built from the attributes.
\<close>

definition Particle_init ::
  "view \<Rightarrow> real \<Rightarrow> string \<Rightarrow> int \<Rightarrow> bool \<Rightarrow> world \<Rightarrow> Particle \<times> world" where
  "Particle_init pos radius color res trail w =
    (let sid = length (spheres w);
         self = \<lparr>p_pos = pos, p_r = radius, p_color = ''gray'', p_res = res,
                 use_trail = trail, vsphere = sid\<rparr>;
         sph = \<lparr>sp_pos = view_val w (p_pos self), sp_r = p_r self, sp_c = p_color self,
                sp_res = p_res self, sp_trail = False\<rparr>;
         w1 = log_call (Sphere_new sid) (w\<lparr>spheres := spheres w @ [sph]\<rparr>);
         w2 = (if use_trail self
               then log_call (Add_trail sid)
                      (w1\<lparr>spheres := (spheres w1)[sid := (spheres w1 ! sid)\<lparr>sp_trail := True\<rparr>]\<rparr>)
               else w1)
     in (self, log_call (Plt_add sid) w2))"

text \<open>The property setters. Each is a method on the object in a world; only \<^verbatim>\<open>pos\<close>
  touches the sphere.\<close>

definition set_pos :: "Particle \<Rightarrow> view \<Rightarrow> world \<Rightarrow> Particle \<times> world" where
  "set_pos self pos w =
    (let self' = self\<lparr>p_pos := pos\<rparr>;
         v = view_val w (p_pos self');
         sid = vsphere self'
     in (self', log_call (Sphere_pos sid v)
                  (w\<lparr>spheres := (spheres w)[sid := (spheres w ! sid)\<lparr>sp_pos := v\<rparr>]\<rparr>)))"

definition set_r :: "Particle \<Rightarrow> real \<Rightarrow> world \<Rightarrow> Particle \<times> world" where
  "set_r self r w = (self\<lparr>p_r := r\<rparr>, w)"

definition set_color :: "Particle \<Rightarrow> string \<Rightarrow> world \<Rightarrow> Particle \<times> world" where
  "set_color self color w = (self\<lparr>p_color := color\<rparr>, w)"

definition set_res :: "Particle \<Rightarrow> int \<Rightarrow> world \<Rightarrow> Particle \<times> world" where
  "set_res self res w = (self\<lparr>p_res := res\<rparr>, w)"

section \<open>Particles\<close>

record Particles =
  ps_positions :: addr
  ps_sizes :: "real list"
  ps_particles :: "Particle list"

text \<open>
  The loop \<^verbatim>\<open>for pos, size in zip(self.__positions, self.__sizes)\<close>: the rows of the
  array are paired with the sizes and the shorter sequence ends the loop. Each pair makes
  one \<^verbatim>\<open>Particle(self.__plt, pos, size)\<close>, with the defaults for the other arguments.
\<close>

fun append_particles :: "(view \<times> real) list \<Rightarrow> Particle list \<Rightarrow> world \<Rightarrow> Particle list \<times> world" where
  "append_particles [] acc w = (acc, w)"
| "append_particles ((pos, sz) # rest) acc w =
    (let (p, w') = Particle_init pos sz ''gray'' 8 False w
     in append_particles rest (acc @ [p]) w')"

definition Particles_init :: "addr \<Rightarrow> real list \<Rightarrow> world \<Rightarrow> Particles \<times> world" where
  "Particles_init positions sizes w =
    (let rows = map (Pair positions) [0..<length (arrays w positions)];
         (ps, w') = append_particles (zip rows sizes) [] w
     in (\<lparr>ps_positions = positions, ps_sizes = sizes, ps_particles = ps\<rparr>, w'))"

text \<open>
  \<^verbatim>\<open>Particles.update\<close>: \<^verbatim>\<open>for i, p in enumerate(self.__particles): p.pos = self.__positions[i]\<close>.
  Indexing the array past its last row raises \<^verbatim>\<open>IndexError\<close>.
\<close>

fun update_from :: "addr \<Rightarrow> nat \<Rightarrow> Particle list \<Rightarrow> world \<Rightarrow> py_error + (Particle list \<times> world)" where
  "update_from a i [] w = Inr ([], w)"
| "update_from a i (p # ps) w =
    (if i < length (arrays w a)
     then (let (p', w1) = set_pos p (a, i) w
           in case update_from a (Suc i) ps w1 of
                Inl e \<Rightarrow> Inl e
              | Inr (ps', w2) \<Rightarrow> Inr (p' # ps', w2))
     else Inl IndexError)"

definition Particles_update :: "Particles \<Rightarrow> world \<Rightarrow> py_error + (Particles \<times> world)" where
  "Particles_update self w =
    (case update_from (ps_positions self) 0 (ps_particles self) w of
       Inl e \<Rightarrow> Inl e
     | Inr (ps, w') \<Rightarrow> Inr (self\<lparr>ps_particles := ps\<rparr>, w'))"

section \<open>ParticleSimulation\<close>

record ParticleSimulation =
  n_particles :: int
  r_min :: real
  r_max :: real
  v_max :: real
  initialised :: bool
  positions :: "vec2 list"
  positions_3d :: addr
  sizes :: "real list"
  particles :: "Particles option"

text \<open>
  \<^verbatim>\<open>np.zeros([n, 3], 'd')\<close> allocates a fresh array of \<open>n\<close> zero rows. The arrays
  \<^verbatim>\<open>__positions\<close> (\<open>n\<close> rows of two) and \<^verbatim>\<open>__sizes\<close> are held by value: the engine
  fills them during the call they are passed to, and nothing writes them afterwards
  through another reference. A negative dimension makes \<^verbatim>\<open>np.zeros\<close> raise
  \<^verbatim>\<open>ValueError\<close>.
\<close>

definition np_zeros3 :: "nat \<Rightarrow> world \<Rightarrow> addr \<times> world" where
  "np_zeros3 n w =
    (next_addr w,
     w\<lparr>arrays := (arrays w)(next_addr w := replicate n (0, 0, 0)),
       next_addr := Suc (next_addr w)\<rparr>)"

text \<open>The engine fills the buffer it is given, in place: the shape is the buffer's own.\<close>

definition get_sizes :: "env \<Rightarrow> real list \<Rightarrow> world \<Rightarrow> real list \<times> world" where
  "get_sizes env buf w =
    (map (eng_sizes env (calls w)) [0..<length buf], log_call Get_sizes w)"

definition get_positions :: "env \<Rightarrow> vec2 list \<Rightarrow> world \<Rightarrow> vec2 list \<times> world" where
  "get_positions env buf w =
    (map (eng_positions env (calls w)) [0..<length buf], log_call Get_positions w)"

text \<open>
  \<^verbatim>\<open>dst[:, :2] = src\<close>: the first two columns of every row are overwritten, the third is
  kept. numpy accepts a source with as many rows as the target, or with one row, which it
  repeats; any other shape raises \<^verbatim>\<open>ValueError\<close>.
  \<^verbatim>\<open>dst[:, 2] = z\<close> overwrites the third column.
\<close>

definition assign_xy :: "vec3 list \<Rightarrow> vec2 list \<Rightarrow> py_error + vec3 list" where
  "assign_xy dst src =
    (if length src = length dst
     then Inr (map2 (\<lambda>(x, y) (_, _, z). (x, y, z)) src dst)
     else if length src = 1
     then Inr (map (\<lambda>(_, _, z). (fst (hd src), snd (hd src), z)) dst)
     else Inl ValueError)"

definition assign_z :: "vec3 list \<Rightarrow> real \<Rightarrow> vec3 list" where
  "assign_z dst z = map (\<lambda>(x, y, _). (x, y, z)) dst"

definition store :: "addr \<Rightarrow> vec3 list \<Rightarrow> world \<Rightarrow> world" where
  "store a rows w = w\<lparr>arrays := (arrays w)(a := rows)\<rparr>"

text \<open>\<^verbatim>\<open>ParticleSimulation.__init_system\<close>, statement by statement.\<close>

definition init_system ::
  "env \<Rightarrow> ParticleSimulation \<Rightarrow> world \<Rightarrow> py_error + (ParticleSimulation \<times> world)" where
  "init_system env self w =
    (let w0 = (if initialised self then log_call Deallocate_system w else w)
     in if n_particles self < 0 then Inl ValueError
        else
          (let n = nat (n_particles self);
               pos0 = replicate n (0, 0);
               (a3, w1) = np_zeros3 n w0;
               sz0 = replicate n 0;
               w2 = log_call (Init_system (n_particles self) (r_min self) (r_max self)
                                (v_max self)) w1;
               (sz, w3) = get_sizes env sz0 w2;
               (pos, w4) = get_positions env pos0 w3
           in case assign_xy (arrays w4 a3) pos of
                Inl e \<Rightarrow> Inl e
              | Inr rows \<Rightarrow>
                  (let w5 = store a3 rows w4;
                       w6 = store a3 (assign_z (arrays w5 a3) 0) w5;
                       (ps, w7) = Particles_init a3 sz w6
                   in Inr (self\<lparr>positions := pos, positions_3d := a3, sizes := sz,
                                particles := Some ps, initialised := True\<rparr>, w7))))"

text \<open>
  \<^verbatim>\<open>ParticleSimulation.__init__\<close> stores the parameters and calls \<^verbatim>\<open>__init_system\<close>.
  The three buffer attributes do not exist yet; \<^verbatim>\<open>__init_system\<close> assigns each of
  them before anything reads it, so the values given to them here are never used.
\<close>

definition ParticleSimulation_init ::
  "env \<Rightarrow> int \<Rightarrow> real \<Rightarrow> real \<Rightarrow> real \<Rightarrow> world \<Rightarrow> py_error + (ParticleSimulation \<times> world)" where
  "ParticleSimulation_init env n rmin rmax vmax w =
    init_system env
      \<lparr>n_particles = n, r_min = rmin, r_max = rmax, v_max = vmax, initialised = False,
       positions = [], positions_3d = 0, sizes = [], particles = None\<rparr> w"

subsection \<open>The loop of run\<close>

text \<open>
  The first four statements of the loop body and the copy into the 3D buffer
  (\<^verbatim>\<open>collision_check\<close> to \<^verbatim>\<open>self.__positions_3d[:, :2] = self.__positions\<close>).
\<close>

definition step_and_sync ::
  "env \<Rightarrow> ParticleSimulation \<Rightarrow> world \<Rightarrow> py_error + (ParticleSimulation \<times> world)" where
  "step_and_sync env self w =
    (let w1 = log_call Collision_check w;
         w2 = log_call Boundary_check w1;
         w3 = log_call Driver_update w2;
         (pos, w4) = get_positions env (positions self) w3
     in case assign_xy (arrays w4 (positions_3d self)) pos of
          Inl e \<Rightarrow> Inl e
        | Inr rows \<Rightarrow> Inr (self\<lparr>positions := pos\<rparr>, store (positions_3d self) rows w4))"

text \<open>The whole body up to \<^verbatim>\<open>self.__plt.show(resetcam=reset_cam, axes=1)\<close>.\<close>

definition loop_body ::
  "env \<Rightarrow> bool \<Rightarrow> ParticleSimulation \<Rightarrow> world \<Rightarrow> py_error + (ParticleSimulation \<times> world)" where
  "loop_body env reset_cam self w =
    (case step_and_sync env self w of
       Inl e \<Rightarrow> Inl e
     | Inr (self1, w1) \<Rightarrow>
         (case particles self1 of
            None \<Rightarrow> Inl AttributeError
          | Some ps \<Rightarrow>
              (case Particles_update ps w1 of
                 Inl e \<Rightarrow> Inl e
               | Inr (ps', w2) \<Rightarrow>
                   Inr (self1\<lparr>particles := Some ps'\<rparr>, log_call (Plt_show reset_cam) w2))))"

text \<open>
  \<^verbatim>\<open>while True\<close>: the loop ends only when the plotter's \<^verbatim>\<open>escaped\<close> attribute is read
  as true (a plotter without the attribute reads as false every time). \<open>escaped env k\<close>
  is what the \<open>k\<close>-th read of a run returns; \<open>k\<close> counts the frames presented so far.
  A run that never reads true does not return: its value is \<open>None\<close>.
\<close>

partial_function (option) run_loop ::
  "env \<Rightarrow> bool \<Rightarrow> nat \<Rightarrow> ParticleSimulation \<Rightarrow> world
     \<Rightarrow> (py_error + (ParticleSimulation \<times> world)) option" where
  "run_loop env reset_cam k self w =
    (case loop_body env reset_cam self w of
       Inl e \<Rightarrow> Some (Inl e)
     | Inr (self', w') \<Rightarrow>
         (let reset_cam' = (if reset_cam then False else reset_cam)
          in if escaped env k then Some (Inr (self', w'))
             else run_loop env reset_cam' (Suc k) self' w'))"

declare run_loop.simps [code]

definition run ::
  "env \<Rightarrow> ParticleSimulation \<Rightarrow> world \<Rightarrow> (py_error + (ParticleSimulation \<times> world)) option" where
  "run env self w = run_loop env True 1 self w"

subsection \<open>Teardown and the parameter setters\<close>

text \<open>\<^verbatim>\<open>__del__\<close> prints and calls \<^verbatim>\<open>particle_driver.deallocate_system()\<close>.\<close>

definition ParticleSimulation_del ::
  "ParticleSimulation \<Rightarrow> world \<Rightarrow> ParticleSimulation \<times> world" where
  "ParticleSimulation_del self w = (self, log_call Deallocate_system w)"

definition set_n_particles ::
  "env \<Rightarrow> ParticleSimulation \<Rightarrow> int \<Rightarrow> world \<Rightarrow> py_error + (ParticleSimulation \<times> world)" where
  "set_n_particles env self n w = init_system env (self\<lparr>n_particles := n\<rparr>) w"

definition set_r_min ::
  "env \<Rightarrow> ParticleSimulation \<Rightarrow> real \<Rightarrow> world \<Rightarrow> py_error + (ParticleSimulation \<times> world)" where
  "set_r_min env self v w = init_system env (self\<lparr>r_min := v\<rparr>) w"

definition set_r_max ::
  "env \<Rightarrow> ParticleSimulation \<Rightarrow> real \<Rightarrow> world \<Rightarrow> py_error + (ParticleSimulation \<times> world)" where
  "set_r_max env self v w = init_system env (self\<lparr>r_max := v\<rparr>) w"

definition set_v_max ::
  "env \<Rightarrow> ParticleSimulation \<Rightarrow> real \<Rightarrow> world \<Rightarrow> py_error + (ParticleSimulation \<times> world)" where
  "set_v_max env self v w = init_system env (self\<lparr>v_max := v\<rparr>) w"

section \<open>Definitions used to state the properties\<close>

text \<open>The entities of the collection an orchestrator owns (none before initialisation).\<close>

definition entities :: "ParticleSimulation \<Rightarrow> Particle list" where
  "entities self = (case particles self of None \<Rightarrow> [] | Some ps \<Rightarrow> ps_particles ps)"

text \<open>
  The buffer invariant, in the words of the specification:
  \<^verbatim>\<open>render_buffer[:, :2] == position_buffer\<close> and \<^verbatim>\<open>render_buffer[:, 2] == 0\<close>.
\<close>

definition synced :: "ParticleSimulation \<Rightarrow> world \<Rightarrow> bool" where
  "synced self w \<longleftrightarrow>
     map (\<lambda>(x, y, z). (x, y)) (arrays w (positions_3d self)) = positions self
     \<and> list_all (\<lambda>(x, y, z). z = 0) (arrays w (positions_3d self))"

text \<open>
  \<open>cycles env m reset_cam self w\<close> executes the loop body \<open>m\<close> times without looking at
  the termination signal: the state in which a run finds itself after \<open>m\<close> frames.
\<close>

fun cycles ::
  "env \<Rightarrow> nat \<Rightarrow> bool \<Rightarrow> ParticleSimulation \<Rightarrow> world \<Rightarrow> py_error + (ParticleSimulation \<times> world)" where
  "cycles env 0 reset_cam self w = Inr (self, w)"
| "cycles env (Suc m) reset_cam self w =
    (case loop_body env reset_cam self w of
       Inl e \<Rightarrow> Inl e
     | Inr (self', w') \<Rightarrow> cycles env m (if reset_cam then False else reset_cam) self' w')"

text \<open>
  What the specification says one iteration does, as the calls it must leave in the log
  after the calls \<open>past\<close>: collision resolution, boundary constraints, integration, the
  position read, then one repositioning per entity with the coordinates just read and
  \<open>z = 0\<close> (the copy into the render buffer followed by the collection's update), then
  the frame presentation with the camera-reset flag. \<open>run_calls\<close> repeats it \<open>m\<close> times,
  the flag being false after the first.
\<close>

definition cycle_calls :: "env \<Rightarrow> bool \<Rightarrow> ParticleSimulation \<Rightarrow> call list \<Rightarrow> call list" where
  "cycle_calls env reset_cam self past =
    (let pos = map (eng_positions env (past @ [Collision_check, Boundary_check, Driver_update]))
                 [0..<length (positions self)]
     in [Collision_check, Boundary_check, Driver_update, Get_positions]
        @ map2 (\<lambda>p (x, y). Sphere_pos (vsphere p) (x, y, 0)) (entities self) pos
        @ [Plt_show reset_cam])"

fun run_calls :: "env \<Rightarrow> nat \<Rightarrow> bool \<Rightarrow> ParticleSimulation \<Rightarrow> call list \<Rightarrow> call list" where
  "run_calls env 0 reset_cam self past = past"
| "run_calls env (Suc m) reset_cam self past =
    run_calls env m False self (past @ cycle_calls env reset_cam self past)"

text \<open>The camera-reset flags of the frames presented in a log, in order.\<close>

definition show_flags :: "call list \<Rightarrow> bool list" where
  "show_flags cs = concat (map (\<lambda>c. case c of Plt_show b \<Rightarrow> [b] | _ \<Rightarrow> []) cs)"

text \<open>
  The calls a reinitialisation of an initialised orchestrator must leave in the log:
  the deallocation first, the allocation second, the two reads, and then the creation and
  registration of one sphere per entity (\<open>b\<close> is the number of spheres made before).
\<close>

definition reinit_calls :: "int \<Rightarrow> real \<Rightarrow> real \<Rightarrow> real \<Rightarrow> nat \<Rightarrow> call list" where
  "reinit_calls n rmin rmax vmax b =
     [Deallocate_system, Init_system n rmin rmax vmax, Get_sizes, Get_positions]
     @ concat (map (\<lambda>i. [Sphere_new (b + i), Plt_add (b + i)]) [0..<nat n])"

text \<open>
  The particle and the sphere that \<^verbatim>\<open>Particle(plt, pos, size)\<close> makes, the list of
  particles a collection is built with, and the log up to the engine's allocation.
\<close>

definition new_particle :: "view \<Rightarrow> real \<Rightarrow> nat \<Rightarrow> Particle" where
  "new_particle pos sz sid =
    \<lparr>p_pos = pos, p_r = sz, p_color = ''gray'', p_res = 8, use_trail = False, vsphere = sid\<rparr>"

definition new_sphere :: "vec3 \<Rightarrow> real \<Rightarrow> Sphere" where
  "new_sphere v sz = \<lparr>sp_pos = v, sp_r = sz, sp_c = ''gray'', sp_res = 8, sp_trail = False\<rparr>"

definition built :: "addr \<Rightarrow> real list \<Rightarrow> nat \<Rightarrow> nat \<Rightarrow> Particle list" where
  "built a szs b n = map (\<lambda>i. new_particle (a, i) (szs ! i) (b + i)) [0..<n]"

definition init_log :: "ParticleSimulation \<Rightarrow> call list \<Rightarrow> call list" where
  "init_log self past =
     past @ (if initialised self then [Deallocate_system] else [])
          @ [Init_system (n_particles self) (r_min self) (r_max self) (v_max self)]"

text \<open>
  The invariant of an initialised orchestrator: it owns a collection bound to its 3D
  buffer, the collection has one entity per row, the 2D buffer has as many rows, and the
  third column of the 3D buffer is zero.
\<close>

definition sim_ok :: "ParticleSimulation \<Rightarrow> world \<Rightarrow> bool" where
  "sim_ok self w \<longleftrightarrow>
     (case particles self of
        None \<Rightarrow> False
      | Some ps \<Rightarrow> ps_positions ps = positions_3d self
                  \<and> length (ps_particles ps) = length (arrays w (positions_3d self)))
     \<and> length (positions self) = length (arrays w (positions_3d self))
     \<and> list_all (\<lambda>(x, y, z). z = 0) (arrays w (positions_3d self))"

text \<open>
  Concrete inputs for the examples: an empty world, and an environment whose engine
  reports radius \<open>(1 + i) / 10\<close> for particle \<open>i\<close>, puts particle \<open>i\<close> at \<open>x = i\<close> with
  \<open>y\<close> the number of calls made so far, and whose user presses escape during the third
  frame.
\<close>

definition world0 :: world where
  "world0 = \<lparr>arrays = (\<lambda>_. []), next_addr = 0, spheres = [], calls = []\<rparr>"

definition demo_env :: env where
  "demo_env = \<lparr>eng_sizes = (\<lambda>_ i. (1 + real i) / 10),
               eng_positions = (\<lambda>past i. (real i, real (length past))),
               escaped = (\<lambda>k. k = 3)\<rparr>"

text \<open>
  A world holding one coordinate array of three rows at address 0, and the state the
  constructor \<^verbatim>\<open>ParticleSimulation(plt, 2, 0.01, 0.1, 0.01)\<close> leaves behind in the empty
  world.
\<close>

definition world3 :: world where
  "world3 = \<lparr>arrays = (\<lambda>_. [])(0 := [(0, 0, 0), (1, 1, 0), (2, 2, 0)]), next_addr = 1,
             spheres = [], calls = []\<rparr>"

definition demo_state :: "ParticleSimulation \<times> world" where
  "demo_state = projr (ParticleSimulation_init demo_env 2 (1/100) (1/10) (1/100) world0)"

section \<open>Auxiliary lemmas\<close>

lemma Particle_init_plain:
  "Particle_init pos sz c 8 False w =
     (new_particle pos sz (length (spheres w)),
      w\<lparr>spheres := spheres w @ [new_sphere (view_val w pos) sz],
        calls := calls w @ [Sphere_new (length (spheres w)), Plt_add (length (spheres w))]\<rparr>)"
  by (simp add: Particle_init_def Let_def log_call_def new_particle_def new_sphere_def)

lemma append_particles_eq:
  "append_particles xs acc w =
     (acc @ map2 (\<lambda>(pos, sz) i. new_particle pos sz i) xs
              [length (spheres w)..<length (spheres w) + length xs],
      w\<lparr>spheres := spheres w @ map (\<lambda>(pos, sz). new_sphere (view_val w pos) sz) xs,
        calls := calls w @ concat (map (\<lambda>i. [Sphere_new i, Plt_add i])
                   [length (spheres w)..<length (spheres w) + length xs])\<rparr>)"
proof (induction xs arbitrary: acc w)
  case Nil
  then show ?case by simp
next
  case (Cons x xs)
  obtain pos sz where x: "x = (pos, sz)" by (cases x)
  have u: "[b..<Suc (b + n)] = b # [Suc b..<Suc (b + n)]" for b n :: nat
    by (simp add: upt_conv_Cons del: upt_Suc)
  show ?case
    by (simp add: x Particle_init_plain Cons.IH view_val_def u del: upt_Suc)
qed

lemma Particles_init_eq:
  "Particles_init a szs w =
     (\<lparr>ps_positions = a, ps_sizes = szs,
       ps_particles = built a szs (length (spheres w)) (min (length (arrays w a)) (length szs))\<rparr>,
      w\<lparr>spheres := spheres w @ map (\<lambda>i. new_sphere (arrays w a ! i) (szs ! i))
                                  [0..<min (length (arrays w a)) (length szs)],
        calls := calls w @ concat (map (\<lambda>i. [Sphere_new (length (spheres w) + i),
                                              Plt_add (length (spheres w) + i)])
                                  [0..<min (length (arrays w a)) (length szs)])\<rparr>)"
proof -
  let ?n = "min (length (arrays w a)) (length szs)"
  let ?b = "length (spheres w)"
  let ?xs = "zip (map (Pair a) [0..<length (arrays w a)]) szs"
  have len: "length ?xs = ?n" by simp
  have 1: "map2 (\<lambda>(pos, sz) i. new_particle pos sz i) ?xs [?b..<?b + ?n] = built a szs ?b ?n"
    by (rule nth_equalityI) (simp_all add: built_def)
  have 2: "map (\<lambda>(pos, sz). new_sphere (view_val w pos) sz) ?xs
             = map (\<lambda>i. new_sphere (arrays w a ! i) (szs ! i)) [0..<?n]"
    by (rule nth_equalityI) (simp_all add: view_val_def)
  have 3: "map (\<lambda>i. [Sphere_new i, Plt_add i]) [?b..<?b + ?n]
             = map (\<lambda>i. [Sphere_new (?b + i), Plt_add (?b + i)]) [0..<?n]"
    by (rule nth_equalityI) simp_all
  show ?thesis
    unfolding Particles_init_def Let_def append_particles_eq len 1 2 3 by simp
qed

lemma set_pos_eq:
  "set_pos p v w =
     (p\<lparr>p_pos := v\<rparr>,
      w\<lparr>spheres := (spheres w)[vsphere p := (spheres w ! vsphere p)\<lparr>sp_pos := view_val w v\<rparr>],
        calls := calls w @ [Sphere_pos (vsphere p) (view_val w v)]\<rparr>)"
  by (simp add: set_pos_def Let_def log_call_def)

lemma update_from_ok:
  "i + length ps \<le> length (arrays w a) \<Longrightarrow>
   \<exists>w'. update_from a i ps w = Inr (map2 (\<lambda>p j. p\<lparr>p_pos := (a, j)\<rparr>) ps [i..<i + length ps], w')
       \<and> arrays w' = arrays w \<and> next_addr w' = next_addr w
       \<and> length (spheres w') = length (spheres w)
       \<and> calls w' = calls w @ map2 (\<lambda>p j. Sphere_pos (vsphere p) (arrays w a ! j)) ps
                                 [i..<i + length ps]
       \<and> (\<forall>k. k \<notin> vsphere ` set ps \<longrightarrow> spheres w' ! k = spheres w ! k)
       \<and> (distinct (map vsphere ps) \<and> (\<forall>p\<in>set ps. vsphere p < length (spheres w)) \<longrightarrow>
            (\<forall>j<length ps. spheres w' ! vsphere (ps ! j)
                 = (spheres w ! vsphere (ps ! j))\<lparr>sp_pos := arrays w a ! (i + j)\<rparr>))"
proof (induction ps arbitrary: i w)
  case Nil
  then show ?case by simp
next
  case (Cons p ps)
  let ?w1 = "w\<lparr>spheres := (spheres w)[vsphere p := (spheres w ! vsphere p)\<lparr>sp_pos := arrays w a ! i\<rparr>],
        calls := calls w @ [Sphere_pos (vsphere p) (arrays w a ! i)]\<rparr>"
  have u: "[b..<Suc (b + n)] = b # [Suc b..<Suc (b + n)]" for b n :: nat
    by (simp add: upt_conv_Cons del: upt_Suc)
  from Cons.prems have "Suc i + length ps \<le> length (arrays ?w1 a)" by simp
  from Cons.IH[OF this] obtain w' where
    r: "update_from a (Suc i) ps ?w1 = Inr (map2 (\<lambda>p j. p\<lparr>p_pos := (a, j)\<rparr>) ps [Suc i..<Suc i + length ps], w')"
    and f: "arrays w' = arrays w" "next_addr w' = next_addr w" "length (spheres w') = length (spheres w)"
    and c: "calls w' = calls ?w1 @ map2 (\<lambda>p j. Sphere_pos (vsphere p) (arrays w a ! j)) ps
                                 [Suc i..<Suc i + length ps]"
    and k: "\<forall>k. k \<notin> vsphere ` set ps \<longrightarrow> spheres w' ! k = spheres ?w1 ! k"
    and d: "distinct (map vsphere ps) \<and> (\<forall>p\<in>set ps. vsphere p < length (spheres ?w1)) \<longrightarrow>
            (\<forall>j<length ps. spheres w' ! vsphere (ps ! j)
                 = (spheres ?w1 ! vsphere (ps ! j))\<lparr>sp_pos := arrays w a ! (Suc i + j)\<rparr>)"
    by auto
  have i: "i < length (arrays w a)" using Cons.prems by simp
  have 1: "update_from a i (p # ps) w = Inr (map2 (\<lambda>p j. p\<lparr>p_pos := (a, j)\<rparr>) (p # ps) [i..<i + length (p # ps)], w')"
    using i r by (simp add: set_pos_eq view_val_def u del: upt_Suc)
  have 2: "calls w' = calls w @ map2 (\<lambda>p j. Sphere_pos (vsphere p) (arrays w a ! j)) (p # ps)
                                 [i..<i + length (p # ps)]"
    using c by (simp add: u del: upt_Suc)
  have 3: "\<forall>k. k \<notin> vsphere ` set (p # ps) \<longrightarrow> spheres w' ! k = spheres w ! k"
    using k by simp
  have 4: "spheres w' ! vsphere ((p # ps) ! j)
                 = (spheres w ! vsphere ((p # ps) ! j))\<lparr>sp_pos := arrays w a ! (i + j)\<rparr>"
    if dist: "distinct (map vsphere (p # ps))" and lt: "\<forall>q\<in>set (p # ps). vsphere q < length (spheres w)"
      and j: "j < length (p # ps)" for j
  proof (cases j)
    case 0
    have "vsphere p \<notin> vsphere ` set ps" using dist by simp
    then have "spheres w' ! vsphere p = spheres ?w1 ! vsphere p" using k by blast
    then show ?thesis using 0 lt by simp
  next
    case (Suc j')
    then have j': "j' < length ps" using j by simp
    then have "ps ! j' \<in> set ps" by simp
    moreover have "vsphere p \<notin> vsphere ` set ps" using dist by simp
    ultimately have ne: "vsphere (ps ! j') \<noteq> vsphere p" by (metis imageI)
    have "spheres w' ! vsphere (ps ! j')
            = (spheres ?w1 ! vsphere (ps ! j'))\<lparr>sp_pos := arrays w a ! (Suc i + j')\<rparr>"
      using d dist lt j' by simp
    then show ?thesis using Suc ne by simp
  qed
  show ?case
    using 1 2 3 4 f by blast
qed

lemma assign_xy_same:
  "length src = length dst \<Longrightarrow>
   assign_xy dst src = Inr (map2 (\<lambda>(x, y) (_, _, z). (x, y, z)) src dst)"
  by (simp add: assign_xy_def)

lemma z0_rows:
  "list_all (\<lambda>(x, y, z). z = (0::real)) dst \<Longrightarrow> length src = length dst \<Longrightarrow>
   map2 (\<lambda>(x, y) (_, _, z). (x, y, z)) src dst = map (\<lambda>(x, y). (x, y, 0)) src"
  by (induction src dst rule: list_induct2') auto

lemma step_and_sync_ok:
  assumes "sim_ok s w"
  shows "step_and_sync env s w =
     Inr (s\<lparr>positions := map (eng_positions env (calls w @ [Collision_check, Boundary_check, Driver_update]))
                           [0..<length (positions s)]\<rparr>,
          w\<lparr>arrays := (arrays w)(positions_3d s :=
                map (\<lambda>(x, y). (x, y, 0))
                  (map (eng_positions env (calls w @ [Collision_check, Boundary_check, Driver_update]))
                           [0..<length (positions s)])),
            calls := calls w @ [Collision_check, Boundary_check, Driver_update, Get_positions]\<rparr>)"
proof -
  let ?pos = "map (eng_positions env (calls w @ [Collision_check, Boundary_check, Driver_update]))
                           [0..<length (positions s)]"
  have len: "length ?pos = length (arrays w (positions_3d s))"
    using assms by (simp add: sim_ok_def)
  have z: "list_all (\<lambda>(x, y, z). z = 0) (arrays w (positions_3d s))"
    using assms by (simp add: sim_ok_def)
  show ?thesis
    unfolding step_and_sync_def Let_def get_positions_def log_call_def store_def
    using assign_xy_same[OF len] z0_rows[OF z len] by simp
qed

lemma z0_lift: "list_all (\<lambda>(x, y, z). z = (0::real)) (map (\<lambda>(x, y). (x, y, 0)) xs)"
  by (induction xs) auto

lemma xy_lift: "map (\<lambda>(x, y, z). (x, y)) (map (\<lambda>(x, y). (x, y, 0::real)) xs) = xs"
  by (induction xs) auto

lemma loop_body_ok:
  assumes ok: "sim_ok s w"
  shows "\<exists>s' w'. loop_body env rc s w = Inr (s', w')
           \<and> sim_ok s' w' \<and> synced s' w'
           \<and> calls w' = calls w @ cycle_calls env rc s (calls w)
           \<and> map vsphere (entities s') = map vsphere (entities s)
           \<and> length (positions s') = length (positions s)"
proof -
  let ?a = "positions_3d s"
  let ?pos = "map (eng_positions env (calls w @ [Collision_check, Boundary_check, Driver_update]))
                [0..<length (positions s)]"
  let ?s1 = "s\<lparr>positions := ?pos\<rparr>"
  let ?w1 = "w\<lparr>arrays := (arrays w)(?a := map (\<lambda>(x, y). (x, y, 0)) ?pos),
              calls := calls w @ [Collision_check, Boundary_check, Driver_update, Get_positions]\<rparr>"
  from ok obtain ps where ps: "particles s = Some ps" "ps_positions ps = ?a"
      "length (ps_particles ps) = length (arrays w ?a)"
    and lp: "length (positions s) = length (arrays w ?a)"
    by (auto simp: sim_ok_def split: option.splits)
  have st: "step_and_sync env s w = Inr (?s1, ?w1)"
    by (rule step_and_sync_ok[OF ok])
  have "0 + length (ps_particles ps) \<le> length (arrays ?w1 ?a)"
    using ps lp by simp
  from update_from_ok[OF this] obtain w2 where
    u: "update_from ?a 0 (ps_particles ps) ?w1
          = Inr (map2 (\<lambda>p j. p\<lparr>p_pos := (?a, j)\<rparr>) (ps_particles ps) [0..<0 + length (ps_particles ps)], w2)"
    and ar: "arrays w2 = arrays ?w1"
    and cl: "calls w2 = calls ?w1 @ map2 (\<lambda>p j. Sphere_pos (vsphere p) (arrays ?w1 ?a ! j))
                                   (ps_particles ps) [0..<0 + length (ps_particles ps)]"
    by blast
  let ?es = "map2 (\<lambda>p j. p\<lparr>p_pos := (?a, j)\<rparr>) (ps_particles ps) [0..<0 + length (ps_particles ps)]"
  let ?s' = "?s1\<lparr>particles := Some (ps\<lparr>ps_particles := ?es\<rparr>)\<rparr>"
  let ?w' = "log_call (Plt_show rc) w2"
  have body: "loop_body env rc s w = Inr (?s', ?w')"
    using st u ps by (simp add: loop_body_def Particles_update_def)
  have ok': "sim_ok ?s' ?w'"
    using ps lp ar z0_lift[of ?pos] by (simp add: sim_ok_def log_call_def)
  have sy: "synced ?s' ?w'"
    using ar z0_lift[of ?pos] xy_lift[of ?pos] by (simp add: synced_def log_call_def)
  have ev: "map2 (\<lambda>p j. Sphere_pos (vsphere p) (arrays ?w1 ?a ! j))
               (ps_particles ps) [0..<0 + length (ps_particles ps)]
            = map2 (\<lambda>p (x, y). Sphere_pos (vsphere p) (x, y, 0)) (ps_particles ps) ?pos"
    using ps lp by (intro nth_equalityI) (simp_all add: case_prod_beta)
  have cs: "calls ?w' = calls w @ cycle_calls env rc s (calls w)"
    using cl ev ps by (simp add: log_call_def cycle_calls_def entities_def)
  have vs: "map vsphere (entities ?s') = map vsphere (entities s)"
    using ps by (intro nth_equalityI) (simp_all add: entities_def)
  show ?thesis
    using body ok' sy cs vs by (intro exI[of _ ?s'] exI[of _ ?w']) simp
qed

lemma sphere_pos_events:
  "map2 (\<lambda>p (x, y). Sphere_pos (vsphere p) (x, y, 0)) es pos
     = map2 (\<lambda>i (x, y). Sphere_pos i (x, y, 0)) (map vsphere es) pos"
  by (simp add: zip_map1 case_prod_beta)

lemma cycle_calls_cong:
  assumes v: "map vsphere (entities s') = map vsphere (entities s)"
    and l: "length (positions s') = length (positions s)"
  shows "cycle_calls env rc s' past = cycle_calls env rc s past"
  unfolding cycle_calls_def Let_def sphere_pos_events v l ..

lemma run_calls_cong:
  assumes v: "map vsphere (entities s') = map vsphere (entities s)"
    and l: "length (positions s') = length (positions s)"
  shows "run_calls env m rc s' past = run_calls env m rc s past"
proof (induction m arbitrary: rc past)
  case 0
  show ?case by simp
next
  case (Suc m)
  show ?case
    unfolding run_calls.simps cycle_calls_cong[OF v l] by (rule Suc.IH)
qed

lemma cycles_ok:
  assumes "sim_ok s w" "synced s w"
  shows "\<exists>s' w'. cycles env m rc s w = Inr (s', w')
           \<and> sim_ok s' w' \<and> synced s' w'
           \<and> calls w' = run_calls env m rc s (calls w)
           \<and> map vsphere (entities s') = map vsphere (entities s)
           \<and> length (positions s') = length (positions s)"
  using assms
proof (induction m arbitrary: rc s w)
  case 0
  then show ?case by simp
next
  case (Suc m)
  from loop_body_ok[OF Suc.prems(1), of env rc] obtain s1 w1 where
    b: "loop_body env rc s w = Inr (s1, w1)" and ok: "sim_ok s1 w1" and sy: "synced s1 w1"
    and c: "calls w1 = calls w @ cycle_calls env rc s (calls w)"
    and v: "map vsphere (entities s1) = map vsphere (entities s)"
    and l: "length (positions s1) = length (positions s)"
    by blast
  from Suc.IH[OF ok sy, of False] obtain s' w' where
    r: "cycles env m False s1 w1 = Inr (s', w')" and ok': "sim_ok s' w'" and sy': "synced s' w'"
    and c': "calls w' = run_calls env m False s1 (calls w1)"
    and v': "map vsphere (entities s') = map vsphere (entities s1)"
    and l': "length (positions s') = length (positions s1)"
    by blast
  have "cycles env (Suc m) rc s w = Inr (s', w')"
    using b r by simp
  moreover have "calls w' = run_calls env (Suc m) rc s (calls w)"
    using c c' run_calls_cong[OF v l] by simp
  ultimately show ?case
    using ok' sy' v v' l l' by simp
qed

lemma run_loop_cycles:
  "(\<forall>j<m. \<not> escaped env (k + j)) \<Longrightarrow> escaped env (k + m) \<Longrightarrow>
   run_loop env rc k s w = Some (cycles env (Suc m) rc s w)"
proof (induction m arbitrary: k rc s w)
  case 0
  then have e: "escaped env k" by simp
  show ?case
    by (subst run_loop.simps) (simp add: e split: sum.splits)
next
  case (Suc m)
  have n: "\<not> escaped env k" using Suc.prems(1) by (metis add.right_neutral zero_less_Suc)
  have a: "\<forall>j<m. \<not> escaped env (Suc k + j)"
  proof (intro allI impI)
    fix j assume "j < m"
    then have "Suc j < Suc m" by simp
    then have "\<not> escaped env (k + Suc j)" using Suc.prems(1) by blast
    then show "\<not> escaped env (Suc k + j)" by simp
  qed
  have b: "escaped env (Suc k + m)" using Suc.prems(2) by simp
  have ih: "run_loop env rc' (Suc k) s' w' = Some (cycles env (Suc m) rc' s' w')" for rc' s' w'
    by (rule Suc.IH[OF a b])
  have c: "cycles env (Suc (Suc m)) rc s w =
     (case loop_body env rc s w of Inl e \<Rightarrow> Inl e
      | Inr (s', w') \<Rightarrow> cycles env (Suc m) (if rc then False else rc) s' w')"
    by (rule cycles.simps(2))
  show ?case
    unfolding c
    by (subst run_loop.simps) (simp add: n ih Let_def split: sum.splits prod.splits del: cycles.simps)
qed

lemma assign_xy_zeros:
  "length pos = n \<Longrightarrow>
   assign_xy (replicate n (0, 0, 0)) pos = Inr (map (\<lambda>(x, y). (x, y, 0)) pos)"
proof -
  assume l: "length pos = n"
  let ?zs = "replicate n (0, 0, 0) :: vec3 list"
  have "list_all (\<lambda>(x, y, z). z = 0) ?zs" by (simp add: list_all_iff)
  from z0_rows[OF this, of pos] l assign_xy_same[of pos ?zs] show ?thesis by simp
qed

lemma assign_z_lift:
  "assign_z (map (\<lambda>(x, y). (x, y, 0)) pos) 0 = map (\<lambda>(x, y). (x, y, 0)) pos"
  unfolding assign_z_def by (induction pos) auto

lemma init_system_eq:
  fixes env :: env and s :: ParticleSimulation and w :: world
  assumes n: "0 \<le> n_particles s"
  defines "n \<equiv> nat (n_particles s)"
  defines "sz \<equiv> map (eng_sizes env (init_log s (calls w))) [0..<n]"
  defines "pos \<equiv> map (eng_positions env (init_log s (calls w) @ [Get_sizes])) [0..<n]"
  shows "init_system env s w =
     Inr (s\<lparr>positions := pos, positions_3d := next_addr w, sizes := sz,
            particles := Some \<lparr>ps_positions = next_addr w, ps_sizes = sz,
                               ps_particles = built (next_addr w) sz (length (spheres w)) n\<rparr>,
            initialised := True\<rparr>,
          w\<lparr>arrays := (arrays w)(next_addr w := map (\<lambda>(x, y). (x, y, 0)) pos),
            next_addr := Suc (next_addr w),
            spheres := spheres w @ map (\<lambda>i. new_sphere (map (\<lambda>(x, y). (x, y, 0)) pos ! i) (sz ! i)) [0..<n],
            calls := init_log s (calls w) @ [Get_sizes, Get_positions]
                       @ concat (map (\<lambda>i. [Sphere_new (length (spheres w) + i),
                                             Plt_add (length (spheres w) + i)]) [0..<n])\<rparr>)"
proof -
  show ?thesis
    using n unfolding n_def sz_def pos_def init_log_def init_system_def Let_def np_zeros3_def
      get_sizes_def get_positions_def log_call_def store_def
    by (simp add: assign_xy_zeros assign_z_lift Particles_init_eq del: map_map)
qed

lemma init_system_neg: "n_particles s < 0 \<Longrightarrow> init_system env s w = Inl ValueError"
  by (simp add: init_system_def Let_def)

lemma init_system_Inr_nonneg: "init_system env s w = Inr r \<Longrightarrow> 0 \<le> n_particles s"
  using init_system_neg[of s env w] by (cases "n_particles s < 0") simp_all

lemma built_length: "length (built a szs b n) = n"
  by (simp add: built_def)

lemma init_system_ok:
  assumes i: "init_system env s w = Inr (s', w')"
  shows "sim_ok s' w'" and "synced s' w'"
proof -
  have n: "0 \<le> n_particles s" using i by (rule init_system_Inr_nonneg)
  note e = init_system_eq[OF n, of env w]
  from i e have s': "s' = fst (projr (init_system env s w))" and w': "w' = snd (projr (init_system env s w))"
    by simp_all
  show "sim_ok s' w'"
    unfolding s' w' e by (simp add: sim_ok_def built_length z0_lift del: map_map)
  show "synced s' w'"
    unfolding s' w' e by (simp add: synced_def z0_lift xy_lift del: map_map)
qed

lemma step_and_sync_synced:
  assumes ok: "sim_ok s w"
  shows "\<exists>s' w'. step_and_sync env s w = Inr (s', w') \<and> synced s' w'"
  unfolding step_and_sync_ok[OF ok]
  by (simp add: synced_def z0_lift xy_lift del: map_map)

lemma demo_initialises:
  "\<exists>s w. ParticleSimulation_init demo_env 2 (1/100) (1/10) (1/100) world0 = Inr (s, w)"
  unfolding ParticleSimulation_init_def by (subst init_system_eq) simp_all

lemma show_flags_append: "show_flags (xs @ ys) = show_flags xs @ show_flags ys"
  by (simp add: show_flags_def)

lemma show_flags_sphere_pos:
  "show_flags (map2 (\<lambda>p (x, y). Sphere_pos (vsphere p) (x, y, 0)) es pos) = []"
  by (induction es arbitrary: pos) (auto simp: show_flags_def zip_Cons1 split: list.splits)

lemma show_flags_cycle: "show_flags (cycle_calls env rc s past) = [rc]"
  unfolding cycle_calls_def Let_def show_flags_append show_flags_sphere_pos
  by (simp add: show_flags_def)

lemma show_flags_run_calls:
  "show_flags (run_calls env (Suc m) rc s past) = show_flags past @ rc # replicate m False"
proof (induction m arbitrary: rc past)
  case 0
  show ?case by (simp add: show_flags_append show_flags_cycle)
next
  case (Suc m)
  have "show_flags (run_calls env (Suc (Suc m)) rc s past)
          = show_flags (run_calls env (Suc m) False s (past @ cycle_calls env rc s past))"
    by simp
  also have "\<dots> = show_flags (past @ cycle_calls env rc s past) @ False # replicate m False"
    by (rule Suc.IH)
  finally show ?case
    by (simp add: show_flags_append show_flags_cycle replicate_app_Cons_same del: run_calls.simps)
qed

lemma first_escape_shift:
  assumes "1 \<le> k" "escaped env k" "\<forall>j. 1 \<le> j \<and> j < k \<longrightarrow> \<not> escaped env j"
  shows "(\<forall>j<k - 1. \<not> escaped env (1 + j)) \<and> escaped env (1 + (k - 1))"
  using assms by auto

lemma run_first_escape:
  assumes "1 \<le> k" "escaped env k" "\<forall>j. 1 \<le> j \<and> j < k \<longrightarrow> \<not> escaped env j"
  shows "run env s w = Some (cycles env k True s w)"
proof -
  from first_escape_shift[OF assms] have
    a: "\<forall>j<k - 1. \<not> escaped env (1 + j)" and b: "escaped env (1 + (k - 1))" by blast+
  have "Suc (k - 1) = k" using assms(1) by simp
  with run_loop_cycles[OF a b, of True s w] show ?thesis by (simp add: run_def)
qed

lemma built_nth: "i < n \<Longrightarrow> built a szs b n ! i = new_particle (a, i) (szs ! i) (b + i)"
  by (simp add: built_def)

lemma built_vsphere: "map vsphere (built a szs b n) = [b..<b + n]"
  by (rule nth_equalityI) (simp_all add: built_def new_particle_def)

lemma reinit:
  assumes "initialised s" and n: "0 \<le> n_particles s"
  shows "\<exists>s' w' ps. init_system env s w = Inr (s', w') \<and> particles s' = Some ps
           \<and> int (length (ps_particles ps)) = n_particles s
           \<and> calls w' = calls w @ reinit_calls (n_particles s) (r_min s) (r_max s) (v_max s)
                                     (length (spheres w))"
  unfolding init_system_eq[OF n] using assms
  by (simp add: built_length init_log_def reinit_calls_def)

lemma demo_state_fields:
  "initialised (fst demo_state)" "n_particles (fst demo_state) = 2"
  "r_min (fst demo_state) = 1/100" "r_max (fst demo_state) = 1/10"
  "v_max (fst demo_state) = 1/100" "length (spheres (snd demo_state)) = 2"
  by code_simp+

section \<open>The claims\<close>

subsection \<open>C1: the 3D buffer mirrors the 2D buffer after every synchronisation\<close>

text \<open>
  C1. When \<^verbatim>\<open>__init_system\<close> returns, the first two columns of \<^verbatim>\<open>positions_3d\<close> equal
  \<^verbatim>\<open>positions\<close> and its third column is zero. The same holds after any number \<open>m\<close> of
  loop iterations of \<^verbatim>\<open>run\<close>, and again right after the copy
  \<^verbatim>\<open>positions_3d[:, :2] = positions\<close> of the iteration that follows, which never fails.
\<close>

theorem render_buffer_mirrors_positions:
  assumes "init_system env s0 w0 = Inr (s, w)"
  shows "synced s w \<and>
         (\<forall>m. \<exists>s1 w1 s2 w2. cycles env m True s w = Inr (s1, w1) \<and> synced s1 w1
                \<and> step_and_sync env s1 w1 = Inr (s2, w2) \<and> synced s2 w2)"
proof (intro conjI allI)
  show sy: "synced s w" using assms by (rule init_system_ok(2))
  have ok: "sim_ok s w" using assms by (rule init_system_ok(1))
  fix m
  from cycles_ok[OF ok sy, of env m True] obtain s1 w1 where
    c: "cycles env m True s w = Inr (s1, w1)" and ok1: "sim_ok s1 w1" and sy1: "synced s1 w1"
    by blast
  from step_and_sync_synced[OF ok1, of env] obtain s2 w2 where
    "step_and_sync env s1 w1 = Inr (s2, w2)" "synced s2 w2" by blast
  with c sy1 show "\<exists>s1 w1 s2 w2. cycles env m True s w = Inr (s1, w1) \<and> synced s1 w1
                \<and> step_and_sync env s1 w1 = Inr (s2, w2) \<and> synced s2 w2"
    by blast
qed

theorem render_buffer_mirrors_positions_witness:
  "\<exists>s w. ParticleSimulation_init demo_env 2 (1/100) (1/10) (1/100) world0 = Inr (s, w)
      \<and> synced s w
      \<and> (\<forall>m. \<exists>s1 w1 s2 w2. cycles demo_env m True s w = Inr (s1, w1) \<and> synced s1 w1
                \<and> step_and_sync demo_env s1 w1 = Inr (s2, w2) \<and> synced s2 w2)"
proof -
  from demo_initialises obtain s w where
    i: "ParticleSimulation_init demo_env 2 (1/100) (1/10) (1/100) world0 = Inr (s, w)" by blast
  from render_buffer_mirrors_positions[OF i[unfolded ParticleSimulation_init_def]] i
  show ?thesis by blast
qed

subsection \<open>C2: buffer and collection lengths after initialisation\<close>

text \<open>
  C2. For every positive \<^verbatim>\<open>n_particles\<close>, \<^verbatim>\<open>__init_system\<close> returns normally, and then the
  position buffer, the size buffer and the collection's list of particles each have
  exactly \<^verbatim>\<open>n_particles\<close> elements.
\<close>

theorem init_system_lengths:
  assumes "0 < n_particles s"
  shows "\<exists>s' w' ps. init_system env s w = Inr (s', w') \<and> particles s' = Some ps
           \<and> int (length (positions s')) = n_particles s
           \<and> int (length (sizes s')) = n_particles s
           \<and> int (length (ps_particles ps)) = n_particles s"
proof -
  have n: "0 \<le> n_particles s" using assms by simp
  show ?thesis
    unfolding init_system_eq[OF n] using n by (simp add: built_length)
qed

theorem init_system_lengths_witness:
  "\<exists>s' w' ps. ParticleSimulation_init demo_env 2 (1/100) (1/10) (1/100) world0 = Inr (s', w')
       \<and> particles s' = Some ps \<and> length (positions s') = 2 \<and> length (sizes s') = 2
       \<and> length (ps_particles ps) = 2"
  using init_system_lengths[of "\<lparr>n_particles = 2, r_min = 1/100, r_max = 1/10, v_max = 1/100,
      initialised = False, positions = [], positions_3d = 0, sizes = [], particles = None\<rparr>"
      demo_env world0]
  by (simp add: ParticleSimulation_init_def)

subsection \<open>C3: a collection built from sequences of unequal length\<close>

text \<open>
  C3, as the code has it. \<^verbatim>\<open>Particles.__init__\<close> compares no lengths and raises
  nothing: \<^verbatim>\<open>zip\<close> stops at the shorter sequence. Whatever the two lengths are, it
  creates exactly \<open>min (len positions) (len sizes)\<close> particles and as many spheres;
  particle \<open>i\<close> views \<^verbatim>\<open>positions[i]\<close>, has radius \<^verbatim>\<open>sizes[i]\<close>, and its sphere is made at
  that position with that radius, grey, with resolution 8 and no trail.
\<close>

theorem Particles_init_truncates:
  "(let (ps, w') = Particles_init a szs w; n = min (length (arrays w a)) (length szs)
    in length (ps_particles ps) = n
       \<and> length (spheres w') = length (spheres w) + n
       \<and> (\<forall>i<n. p_pos (ps_particles ps ! i) = (a, i)
                 \<and> p_r (ps_particles ps ! i) = szs ! i
                 \<and> spheres w' ! vsphere (ps_particles ps ! i)
                     = \<lparr>sp_pos = arrays w a ! i, sp_r = szs ! i, sp_c = ''gray'',
                        sp_res = 8, sp_trail = False\<rparr>))"
  unfolding Particles_init_eq Let_def
  by (simp add: built_length built_nth new_particle_def new_sphere_def nth_append)

theorem Particles_init_truncates_witness:
  "(let (ps, w') = Particles_init 0 [1/10, 1/5] world3; n = min (length (arrays world3 0)) (length [1/10, 1/5 :: real])
    in n = 2 \<and> length (ps_particles ps) = n
       \<and> length (spheres w') = length (spheres world3) + n
       \<and> (\<forall>i<n. p_pos (ps_particles ps ! i) = (0, i)
                 \<and> p_r (ps_particles ps ! i) = [1/10, 1/5] ! i
                 \<and> spheres w' ! vsphere (ps_particles ps ! i)
                     = \<lparr>sp_pos = arrays world3 0 ! i, sp_r = [1/10, 1/5] ! i, sp_c = ''gray'',
                        sp_res = 8, sp_trail = False\<rparr>))"
  using Particles_init_truncates[of 0 "[1/10, 1/5]" world3]
  by (simp add: Let_def world3_def split: prod.splits)

text \<open>
  The claim as stated fails: with three positions and two sizes the constructor returns
  a collection of two particles and has registered two spheres.
\<close>

theorem mismatched_lengths_counterexample:
  "length (arrays world3 0) = 3
   \<and> length (ps_particles (fst (Particles_init 0 [1/10, 1/5] world3))) = 2
   \<and> length (spheres (snd (Particles_init 0 [1/10, 1/5] world3))) = 2"
  by code_simp

subsection \<open>C4: the order of an iteration and the number of iterations\<close>

text \<open>
  C4. Start from a state \<^verbatim>\<open>__init_system\<close> returned. If the termination signal is first
  true at the \<open>k\<close>-th read (\<open>k \<ge> 1\<close>), then \<^verbatim>\<open>run\<close> returns, its final state is the one
  reached by executing the loop body exactly \<open>k\<close> times, and the calls it made are \<open>k\<close>
  times the sequence collision check, boundary check, engine update, position read, one
  repositioning per entity with the coordinates just read and \<open>z = 0\<close>, frame
  presentation.
\<close>

theorem run_performs_k_cycles:
  assumes "init_system env s0 w0 = Inr (s, w)"
    and "1 \<le> k" and "escaped env k" and "\<forall>j. 1 \<le> j \<and> j < k \<longrightarrow> \<not> escaped env j"
  shows "\<exists>s' w'. run env s w = Some (Inr (s', w'))
           \<and> cycles env k True s w = Inr (s', w')
           \<and> calls w' = run_calls env k True s (calls w)"
proof -
  have ok: "sim_ok s w" and sy: "synced s w"
    using assms(1) by (rule init_system_ok)+
  from cycles_ok[OF ok sy, of env k True] obtain s' w' where
    c: "cycles env k True s w = Inr (s', w')" and l: "calls w' = run_calls env k True s (calls w)"
    by blast
  have "run env s w = Some (cycles env k True s w)"
    using assms(2-4) by (rule run_first_escape)
  with c l show ?thesis by simp
qed

theorem run_performs_k_cycles_witness:
  "\<exists>s w s' w'. ParticleSimulation_init demo_env 2 (1/100) (1/10) (1/100) world0 = Inr (s, w)
      \<and> escaped demo_env 3 \<and> \<not> escaped demo_env 1 \<and> \<not> escaped demo_env 2
      \<and> run demo_env s w = Some (Inr (s', w'))
      \<and> cycles demo_env 3 True s w = Inr (s', w')
      \<and> calls w' = run_calls demo_env 3 True s (calls w)"
proof -
  from demo_initialises obtain s w where
    i: "ParticleSimulation_init demo_env 2 (1/100) (1/10) (1/100) world0 = Inr (s, w)" by blast
  have e: "escaped demo_env 3" "\<forall>j. 1 \<le> j \<and> j < 3 \<longrightarrow> \<not> escaped demo_env j"
    by (simp_all add: demo_env_def)
  have n: "\<not> escaped demo_env 1" "\<not> escaped demo_env 2" by (simp_all add: demo_env_def)
  from run_performs_k_cycles[OF i[unfolded ParticleSimulation_init_def] _ e, of ] i e(1) n
  show ?thesis by (simp del: run_calls.simps cycles.simps)
qed

subsection \<open>C5: the camera is reset on the first frame only\<close>

text \<open>
  C5. Start from a state \<^verbatim>\<open>__init_system\<close> returned. After \<open>K \<ge> 1\<close> frames of a run the
  camera-reset flags passed to \<^verbatim>\<open>show\<close> are \<open>True\<close> followed by \<open>K - 1\<close> times \<open>False\<close>; and
  when the termination signal is first true at the \<open>K\<close>-th read, that state is the one
  \<^verbatim>\<open>run\<close> returns.
\<close>

theorem reset_cam_true_once:
  assumes "init_system env s0 w0 = Inr (s, w)" and "1 \<le> K"
  shows "\<exists>s' w'. cycles env K True s w = Inr (s', w')
           \<and> show_flags (calls w') = show_flags (calls w) @ True # replicate (K - 1) False
           \<and> (escaped env K \<and> (\<forall>j. 1 \<le> j \<and> j < K \<longrightarrow> \<not> escaped env j)
                \<longrightarrow> run env s w = Some (Inr (s', w')))"
proof -
  have ok: "sim_ok s w" and sy: "synced s w"
    using assms(1) by (rule init_system_ok)+
  from cycles_ok[OF ok sy, of env K True] obtain s' w' where
    c: "cycles env K True s w = Inr (s', w')" and l: "calls w' = run_calls env K True s (calls w)"
    by blast
  obtain m where K: "K = Suc m" using assms(2) by (cases K) simp_all
  have f: "show_flags (calls w') = show_flags (calls w) @ True # replicate (K - 1) False"
    unfolding l K show_flags_run_calls by simp
  have r: "run env s w = Some (Inr (s', w'))"
    if "escaped env K" "\<forall>j. 1 \<le> j \<and> j < K \<longrightarrow> \<not> escaped env j"
    using run_first_escape[OF assms(2) that, of s w] c by simp
  from c f r show ?thesis by blast
qed

theorem reset_cam_true_once_witness:
  "\<exists>s w s' w'. ParticleSimulation_init demo_env 2 (1/100) (1/10) (1/100) world0 = Inr (s, w)
      \<and> cycles demo_env 3 True s w = Inr (s', w')
      \<and> show_flags (calls w') = show_flags (calls w) @ [True, False, False]
      \<and> escaped demo_env 3 \<and> \<not> escaped demo_env 1 \<and> \<not> escaped demo_env 2
      \<and> run demo_env s w = Some (Inr (s', w'))"
proof -
  from demo_initialises obtain s w where
    i: "ParticleSimulation_init demo_env 2 (1/100) (1/10) (1/100) world0 = Inr (s, w)" by blast
  have e: "escaped demo_env 3" "\<forall>j. 1 \<le> j \<and> j < 3 \<longrightarrow> \<not> escaped demo_env j"
    "\<not> escaped demo_env 1" "\<not> escaped demo_env 2"
    by (simp_all add: demo_env_def)
  have r: "True # replicate (3 - 1) False = [True, False, False]" by (simp add: numeral_2_eq_2)
  from reset_cam_true_once[OF i[unfolded ParticleSimulation_init_def], of 3] i e r
  show ?thesis by (simp del: cycles.simps) 
qed

subsection \<open>C6: the parameter setters reinitialise, deallocating first\<close>

text \<open>
  C6. On an initialised orchestrator, setting \<^verbatim>\<open>n_particles\<close> to \<open>m \<ge> 0\<close> returns
  normally with a collection of exactly \<open>m\<close> particles, and the calls it adds to the log
  are \<open>reinit_calls\<close>: \<^verbatim>\<open>deallocate_system\<close> first, then \<^verbatim>\<open>init_system\<close> with the new
  count, then the two reads and the spheres. The setters of \<^verbatim>\<open>r_min\<close>, \<^verbatim>\<open>r_max\<close> and
  \<^verbatim>\<open>v_max\<close> add the same calls in the same order, with the new parameter value.
\<close>

theorem setters_reinitialise:
  assumes "initialised s"
  shows "(0 \<le> m \<longrightarrow>
           (\<exists>s' w' ps. set_n_particles env s m w = Inr (s', w') \<and> particles s' = Some ps
               \<and> int (length (ps_particles ps)) = m
               \<and> calls w' = calls w @ reinit_calls m (r_min s) (r_max s) (v_max s)
                                         (length (spheres w))))
       \<and> (0 \<le> n_particles s \<longrightarrow>
           (\<exists>s' w'. set_r_min env s v w = Inr (s', w')
               \<and> calls w' = calls w @ reinit_calls (n_particles s) v (r_max s) (v_max s)
                                         (length (spheres w)))
         \<and> (\<exists>s' w'. set_r_max env s v w = Inr (s', w')
               \<and> calls w' = calls w @ reinit_calls (n_particles s) (r_min s) v (v_max s)
                                         (length (spheres w)))
         \<and> (\<exists>s' w'. set_v_max env s v w = Inr (s', w')
               \<and> calls w' = calls w @ reinit_calls (n_particles s) (r_min s) (r_max s) v
                                         (length (spheres w))))"
proof (intro conjI impI)
  assume m: "0 \<le> m"
  from reinit[of "s\<lparr>n_particles := m\<rparr>" env w] assms m
  show "\<exists>s' w' ps. set_n_particles env s m w = Inr (s', w') \<and> particles s' = Some ps
               \<and> int (length (ps_particles ps)) = m
               \<and> calls w' = calls w @ reinit_calls m (r_min s) (r_max s) (v_max s)
                                         (length (spheres w))"
    by (simp add: set_n_particles_def)
next
  assume n: "0 \<le> n_particles s"
  from reinit[of "s\<lparr>r_min := v\<rparr>" env w] assms n
  show "\<exists>s' w'. set_r_min env s v w = Inr (s', w')
               \<and> calls w' = calls w @ reinit_calls (n_particles s) v (r_max s) (v_max s)
                                         (length (spheres w))"
    by (simp add: set_r_min_def) blast
next
  assume n: "0 \<le> n_particles s"
  from reinit[of "s\<lparr>r_max := v\<rparr>" env w] assms n
  show "\<exists>s' w'. set_r_max env s v w = Inr (s', w')
               \<and> calls w' = calls w @ reinit_calls (n_particles s) (r_min s) v (v_max s)
                                         (length (spheres w))"
    by (simp add: set_r_max_def) blast
next
  assume n: "0 \<le> n_particles s"
  from reinit[of "s\<lparr>v_max := v\<rparr>" env w] assms n
  show "\<exists>s' w'. set_v_max env s v w = Inr (s', w')
               \<and> calls w' = calls w @ reinit_calls (n_particles s) (r_min s) (r_max s) v
                                         (length (spheres w))"
    by (simp add: set_v_max_def) blast
qed

theorem setters_reinitialise_witness:
  "initialised (fst demo_state) \<and> (0::int) \<le> 3 \<and> 0 \<le> n_particles (fst demo_state)
   \<and> (\<exists>s' w' ps. set_n_particles demo_env (fst demo_state) 3 (snd demo_state) = Inr (s', w')
         \<and> particles s' = Some ps \<and> length (ps_particles ps) = 3
         \<and> calls w' = calls (snd demo_state)
              @ [Deallocate_system, Init_system 3 (1/100) (1/10) (1/100), Get_sizes, Get_positions,
                 Sphere_new 2, Plt_add 2, Sphere_new 3, Plt_add 3, Sphere_new 4, Plt_add 4])
   \<and> (\<exists>s' w'. set_r_min demo_env (fst demo_state) (1/50) (snd demo_state) = Inr (s', w')
         \<and> calls w' = calls (snd demo_state)
              @ [Deallocate_system, Init_system 2 (1/50) (1/10) (1/100), Get_sizes, Get_positions,
                 Sphere_new 2, Plt_add 2, Sphere_new 3, Plt_add 3])"
proof -
  have r3: "reinit_calls 3 (1/100) (1/10) (1/100) 2
      = [Deallocate_system, Init_system 3 (1/100) (1/10) (1/100), Get_sizes, Get_positions,
                 Sphere_new 2, Plt_add 2, Sphere_new 3, Plt_add 3, Sphere_new 4, Plt_add 4]"
    by code_simp
  have r2: "reinit_calls 2 (1/50) (1/10) (1/100) 2
      = [Deallocate_system, Init_system 2 (1/50) (1/10) (1/100), Get_sizes, Get_positions,
                 Sphere_new 2, Plt_add 2, Sphere_new 3, Plt_add 3]"
    by code_simp
  from setters_reinitialise[OF demo_state_fields(1), of 3 demo_env "snd demo_state" "1/50"]
  show ?thesis
    by (simp add: demo_state_fields r3 r2)
qed

subsection \<open>C7: teardown\<close>

text \<open>
  C7, as the code has it. No statement of the class sets the \<^verbatim>\<open>initialised\<close> flag back
  to false, and \<^verbatim>\<open>__del__\<close> does not: after the teardown of an initialised orchestrator
  the orchestrator is unchanged and still initialised, and the teardown has called
  \<^verbatim>\<open>deallocate_system\<close> exactly once. A second teardown in succession therefore
  deallocates again: two calls, two deallocations.
\<close>

theorem teardown_repeats_when_initialised:
  assumes "initialised s"
  shows "fst (ParticleSimulation_del s w) = s
   \<and> initialised (fst (ParticleSimulation_del s w))
   \<and> calls (snd (ParticleSimulation_del s w)) = calls w @ [Deallocate_system]
   \<and> count_list (calls (snd (ParticleSimulation_del (fst (ParticleSimulation_del s w))
                                (snd (ParticleSimulation_del s w)))))
        Deallocate_system
      = count_list (calls w) Deallocate_system + 2"
  using assms by (simp add: ParticleSimulation_del_def log_call_def)

theorem teardown_repeats_when_initialised_witness:
  "initialised (fst demo_state)
   \<and> fst (ParticleSimulation_del (fst demo_state) (snd demo_state)) = fst demo_state
   \<and> initialised (fst (ParticleSimulation_del (fst demo_state) (snd demo_state)))
   \<and> calls (snd (ParticleSimulation_del (fst demo_state) (snd demo_state)))
        = calls (snd demo_state) @ [Deallocate_system]
   \<and> count_list (calls (snd (ParticleSimulation_del
                                (fst (ParticleSimulation_del (fst demo_state) (snd demo_state)))
                                (snd (ParticleSimulation_del (fst demo_state) (snd demo_state))))))
        Deallocate_system
      = count_list (calls (snd demo_state)) Deallocate_system + 2"
  using teardown_repeats_when_initialised[OF demo_state_fields(1), of "snd demo_state"]
    demo_state_fields(1)
  by blast

text \<open>
  The claim as stated fails: on the initialised orchestrator just constructed, whose log
  holds no deallocation, two teardowns leave two deallocations in the log.
\<close>

theorem teardown_twice_counterexample:
  "\<not> isl (ParticleSimulation_init demo_env 2 (1/100) (1/10) (1/100) world0)
   \<and> initialised (fst demo_state)
   \<and> count_list (calls (snd demo_state)) Deallocate_system = 0
   \<and> count_list (calls (snd (ParticleSimulation_del (fst demo_state)
        (snd (ParticleSimulation_del (fst demo_state) (snd demo_state))))))
        Deallocate_system = 2"
  by code_simp

subsection \<open>C8: the radius and resolution setters do not touch the sphere\<close>

text \<open>
  C8. Setting \<^verbatim>\<open>r\<close> or \<^verbatim>\<open>res\<close> on any particle changes nothing in the world, keeps the
  particle's sphere, and the getter then returns the new value. In particular, after a
  particle is constructed and both are set, its sphere still has the radius and the
  resolution it was constructed with, and no call was made.
\<close>

theorem radius_resolution_setters_keep_sphere:
  "snd (set_r p v w) = w \<and> p_r (fst (set_r p v w)) = v
     \<and> vsphere (fst (set_r p v w)) = vsphere p
   \<and> snd (set_res p n w) = w \<and> p_res (fst (set_res p n w)) = n
     \<and> vsphere (fst (set_res p n w)) = vsphere p
   \<and> (let (q, w1) = Particle_init pos radius color res trail w0;
           (q1, w2) = set_r q v w1;
           (q2, w3) = set_res q1 n w2
       in p_r q2 = v \<and> p_res q2 = n
          \<and> sp_r (spheres w3 ! vsphere q2) = radius \<and> sp_res (spheres w3 ! vsphere q2) = res
          \<and> spheres w3 = spheres w1 \<and> calls w3 = calls w1)"
  by (simp add: set_r_def set_res_def Particle_init_def Let_def log_call_def nth_append)

subsection \<open>C9: the constructor ignores its colour argument\<close>

text \<open>
  C9. Whatever \<^verbatim>\<open>color\<close> is passed to \<^verbatim>\<open>Particle.__init__\<close>, the stored colour is
  \<^verbatim>\<open>'gray'\<close> and the sphere is created with colour \<^verbatim>\<open>'gray'\<close>. The colour setter stores
  its argument; the other three setters leave the stored colour alone.
\<close>

theorem constructor_ignores_color:
  "p_color (fst (Particle_init pos radius color res trail w)) = ''gray''
   \<and> sp_c (spheres (snd (Particle_init pos radius color res trail w))
             ! vsphere (fst (Particle_init pos radius color res trail w))) = ''gray''
   \<and> p_color (fst (set_color p c w')) = c
   \<and> p_color (fst (set_pos p v w')) = p_color p
   \<and> p_color (fst (set_r p x w')) = p_color p
   \<and> p_color (fst (set_res p n w')) = p_color p"
  by (simp add: set_r_def set_res_def set_color_def set_pos_def Particle_init_def Let_def
        log_call_def nth_append)

subsection \<open>C10: update never indexes out of range\<close>

text \<open>
  C10. Take the collection \<^verbatim>\<open>Particles(plt, positions, sizes)\<close> builds, for any two
  lengths, and let the array be overwritten in place with any rows (same shape). Then
  \<^verbatim>\<open>update\<close> returns normally; the collection has \<open>min (len positions) (len sizes)\<close>
  particles; every index \<open>i\<close> it iterates is below the number of rows, and afterwards
  particle \<open>i\<close> views row \<open>i\<close> and its sphere sits at the coordinates of row \<open>i\<close>.
\<close>

theorem Particles_update_total:
  assumes i: "Particles_init a szs w = (ps, w1)"
    and l: "length rows = length (arrays w a)"
  shows "\<exists>ps' w2. Particles_update ps (store a rows w1) = Inr (ps', w2)
           \<and> length (ps_particles ps') = min (length (arrays w a)) (length szs)
           \<and> (\<forall>i<length (ps_particles ps').
                  i < length rows
                  \<and> p_pos (ps_particles ps' ! i) = (a, i)
                  \<and> sp_pos (spheres w2 ! vsphere (ps_particles ps' ! i)) = rows ! i)"
proof -
  let ?n = "min (length (arrays w a)) (length szs)"
  let ?b = "length (spheres w)"
  let ?es = "built a szs ?b ?n"
  let ?w = "store a rows w1"
  have ps: "ps_particles ps = ?es" "ps_positions ps = a"
    and sp: "length (spheres w1) = ?b + ?n"
    using i unfolding Particles_init_eq by auto
  have ar: "arrays ?w a = rows" and sw: "spheres ?w = spheres w1"
    by (simp_all add: store_def)
  have "0 + length ?es \<le> length (arrays ?w a)"
    using l by (simp add: ar built_length)
  from update_from_ok[OF this] obtain w2 where
    u: "update_from a 0 ?es ?w = Inr (map2 (\<lambda>p j. p\<lparr>p_pos := (a, j)\<rparr>) ?es [0..<0 + length ?es], w2)"
    and d: "distinct (map vsphere ?es) \<and> (\<forall>p\<in>set ?es. vsphere p < length (spheres ?w)) \<longrightarrow>
            (\<forall>j<length ?es. spheres w2 ! vsphere (?es ! j)
                 = (spheres ?w ! vsphere (?es ! j))\<lparr>sp_pos := arrays ?w a ! (0 + j)\<rparr>)"
    by blast
  have dist: "distinct (map vsphere ?es)" by (simp add: built_vsphere)
  have "set (map vsphere ?es) = {?b..<?b + ?n}" by (simp only: built_vsphere set_upt)
  then have lt: "\<forall>p\<in>set ?es. vsphere p < length (spheres ?w)"
    unfolding sw sp by auto
  from d dist lt have sph: "\<And>j. j < ?n \<Longrightarrow> sp_pos (spheres w2 ! vsphere (?es ! j)) = rows ! j"
    by (simp add: ar built_length)
  let ?es' = "map2 (\<lambda>p j. p\<lparr>p_pos := (a, j)\<rparr>) ?es [0..<0 + length ?es]"
  have r: "Particles_update ps ?w = Inr (ps\<lparr>ps_particles := ?es'\<rparr>, w2)"
    using u by (simp add: Particles_update_def ps)
  have len: "length ?es' = ?n" by (simp add: built_length)
  have el: "i < length rows \<and> p_pos (?es' ! i) = (a, i) \<and> sp_pos (spheres w2 ! vsphere (?es' ! i)) = rows ! i"
    if "i < ?n" for i
    using that sph[OF that] l by (simp add: built_length)
  show ?thesis
    using r len el by (intro exI[of _ "ps\<lparr>ps_particles := ?es'\<rparr>"] exI[of _ w2]) simp
qed

theorem Particles_update_total_witness:
  "\<exists>ps w1 ps' w2. Particles_init 0 [1/10, 1/5] world3 = (ps, w1)
      \<and> length ([(5, 5, 0), (6, 6, 0), (7, 7, 0)] :: vec3 list) = length (arrays world3 0)
      \<and> min (length (arrays world3 0)) (length [1/10, 1/5 :: real]) = 2
      \<and> Particles_update ps (store 0 [(5, 5, 0), (6, 6, 0), (7, 7, 0)] w1) = Inr (ps', w2)
      \<and> length (ps_particles ps') = min (length (arrays world3 0)) (length [1/10, 1/5 :: real])
      \<and> (\<forall>i<length (ps_particles ps').
                  i < length ([(5, 5, 0), (6, 6, 0), (7, 7, 0)] :: vec3 list)
                  \<and> p_pos (ps_particles ps' ! i) = (0, i)
                  \<and> sp_pos (spheres w2 ! vsphere (ps_particles ps' ! i))
                      = [(5, 5, 0), (6, 6, 0), (7, 7, 0)] ! i)"
proof -
  obtain ps w1 where i: "Particles_init 0 [1/10, 1/5] world3 = (ps, w1)" by fastforce
  have l: "length ([(5, 5, 0), (6, 6, 0), (7, 7, 0)] :: vec3 list) = length (arrays world3 0)"
    by (simp add: world3_def)
  have m: "min (length (arrays world3 0)) (length [1/10, 1/5 :: real]) = 2"
    by (simp add: world3_def)
  from Particles_update_total[OF i l] i l m show ?thesis
    by blast
qed

end
